theory Spec2Isabelle
  imports Complex_Main "HOL-Library.Word"
begin

section \<open>The joystick message and the program state\<close>

text \<open>
  \<^verbatim>\<open>sensor_msgs::msg::Joy\<close> is declared by the middleware's message package: a header,
  \<^verbatim>\<open>float32[] axes\<close> and \<^verbatim>\<open>int32[] buttons\<close>. The two sequences are
  \<^verbatim>\<open>std::vector\<close>s of unbounded length. A \<^verbatim>\<open>float\<close> is kept as its 32 bits
  (IEEE 754 binary32), an \<^verbatim>\<open>int32_t\<close> as a 32-bit word read in two's complement.
  The header is never read by this program; its type is a parameter.
\<close>

type_synonym float32 = "32 word"
type_synonym int32 = "32 word"

record 'h Joy =
  header :: 'h
  axes :: "float32 list"
  buttons :: "int32 list"

text \<open>
  What a call of the callback can see and change: the characters written to
  \<^verbatim>\<open>std::cout\<close> so far, the message object behind the shared pointer, and
  everything else the process holds (of any type).
\<close>

record ('h, 'r) state =
  cout :: string
  msg :: "'h Joy"
  rest :: 'r

text \<open>
  The operations of the callback whose behaviour C++ leaves undefined: incrementing an
  \<^verbatim>\<open>int\<close> that holds \<^verbatim>\<open>INT_MAX\<close>, and \<^verbatim>\<open>operator[]\<close> of a vector at an
  index that is not below its size. A run that reaches one stops there, with the state it
  had reached.
\<close>

datatype undefined_behaviour = SignedOverflow | OutOfRange

section \<open>Stream insertion\<close>

text \<open>
  \<^verbatim>\<open>operator<<\<close> of \<^verbatim>\<open>std::ostream\<close> belongs to the C++ standard library. It is
  modelled for a stream in its initial formatting state (decimal base, no field width,
  precision 6, no \<^verbatim>\<open>showpoint\<close>, \<^verbatim>\<open>showpos\<close> or \<^verbatim>\<open>uppercase\<close>), which is the
  state of \<^verbatim>\<open>std::cout\<close> in this program: nothing in it sets a flag. Writes are taken
  to succeed.
\<close>

definition digit_char :: "nat \<Rightarrow> char" where
  "digit_char d = ''0123456789'' ! d"

function digits :: "nat \<Rightarrow> string" where
  "digits n = (if n < 10 then [digit_char n] else digits (n div 10) @ [digit_char (n mod 10)])"
  by pat_completeness auto
termination
  by (relation "measure id") auto

declare digits.simps [simp del]

text \<open>Insertion of an \<^verbatim>\<open>int\<close>: the conversion \<^verbatim>\<open>%d\<close>.\<close>

definition put_int :: "int \<Rightarrow> string" where
  "put_int k = (if k < 0 then CHR ''-'' # digits (nat (- k)) else digits (nat k))"

text \<open>
  Insertion of a \<^verbatim>\<open>float\<close>: the value is widened to \<^verbatim>\<open>double\<close> (exactly) and
  converted as by \<^verbatim>\<open>%g\<close> with precision 6. The bits are decoded into sign, biased
  exponent and fraction; a finite magnitude is the exact quotient of two naturals.
\<close>

definition sign_bit :: "float32 \<Rightarrow> bool" where
  "sign_bit w = (2 ^ 31 \<le> unat w)"

definition biased_exponent :: "float32 \<Rightarrow> nat" where
  "biased_exponent w = (unat w div 2 ^ 23) mod 256"

definition fraction :: "float32 \<Rightarrow> nat" where
  "fraction w = unat w mod 2 ^ 23"

definition magnitude :: "float32 \<Rightarrow> nat \<times> nat" where
  "magnitude w =
     (let e = biased_exponent w; f = fraction w in
      if e = 0 then (f, 2 ^ 149)
      else if e < 150 then (2 ^ 23 + f, 2 ^ (150 - e))
      else ((2 ^ 23 + f) * 2 ^ (e - 150), 1))"

text \<open>The number a \<^verbatim>\<open>float\<close> stands for, when it is finite.\<close>

definition float32_value :: "float32 \<Rightarrow> rat option" where
  "float32_value w =
     (if biased_exponent w = 255 then None
      else
        (case magnitude w of (num, den) \<Rightarrow>
           Some ((if sign_bit w then - 1 else 1) * (of_nat num / of_nat den))))"

text \<open>The least \<open>j\<close> from the start value on with \<open>den \<le> num * 10 ^ j\<close>.\<close>

function scale_up :: "nat \<Rightarrow> nat \<Rightarrow> nat \<Rightarrow> nat" where
  "scale_up num den j =
     (if num = 0 \<or> den \<le> num * 10 ^ j then j else scale_up num den (Suc j))"
  by pat_completeness auto
termination
proof (relation "measure (\<lambda>(num, den, j). den - num * 10 ^ j)")
  show "wf (measure (\<lambda>(num, den, j). den - num * 10 ^ j))"
    by simp
next
  fix num den j :: nat
  assume a: "\<not> (num = 0 \<or> den \<le> num * 10 ^ j)"
  then have lt: "num * 10 ^ j < den" and pos: "0 < num * 10 ^ j"
    by simp_all
  have "num * 10 ^ Suc j = 10 * (num * 10 ^ j)"
    by simp
  with pos have "num * 10 ^ j < num * 10 ^ Suc j"
    by linarith
  with lt have "den - num * 10 ^ Suc j < den - num * 10 ^ j"
    by linarith
  then show "((num, den, Suc j), (num, den, j)) \<in> measure (\<lambda>(num, den, j). den - num * 10 ^ j)"
    by simp
qed

declare scale_up.simps [simp del]

text \<open>The decimal exponent of \<open>num / den\<close>: the \<open>x\<close> with \<open>10 ^ x \<le> num / den < 10 ^ (x + 1)\<close>.\<close>

definition decimal_exponent :: "nat \<Rightarrow> nat \<Rightarrow> int" where
  "decimal_exponent num den =
     (if den \<le> num then int (length (digits (num div den))) - 1
      else - int (scale_up num den 1))"

text \<open>Rounding to nearest, ties to even: the default rounding mode.\<close>

definition round_half_even :: "nat \<Rightarrow> nat \<Rightarrow> nat" where
  "round_half_even p q =
     (let d = p div q; r = p mod q in
      if q < 2 * r \<or> (2 * r = q \<and> odd d) then d + 1 else d)"

text \<open>\<open>num / den\<close> in units of \<open>10 ^ (x - 5)\<close>: six significant digits at exponent \<open>x\<close>.\<close>

definition significand :: "nat \<Rightarrow> nat \<Rightarrow> int \<Rightarrow> nat" where
  "significand num den x =
     (if x \<le> 5 then round_half_even (num * 10 ^ nat (5 - x)) den
      else round_half_even num (den * 10 ^ nat (x - 5)))"

definition pad_digits :: "nat \<Rightarrow> nat \<Rightarrow> string" where
  "pad_digits k n = replicate (k - length (digits n)) (CHR ''0'') @ digits n"

definition strip_zeros :: "string \<Rightarrow> string" where
  "strip_zeros ds = rev (dropWhile (\<lambda>c. c = CHR ''0'') (rev ds))"

text \<open>Without \<^verbatim>\<open>showpoint\<close>, trailing zeros go, and the point with them if nothing is left.\<close>

definition with_fraction :: "string \<Rightarrow> string \<Rightarrow> string" where
  "with_fraction ip fp = (let f = strip_zeros fp in if f = [] then ip else ip @ ''.'' @ f)"

definition fixed_notation :: "nat \<Rightarrow> int \<Rightarrow> string" where
  "fixed_notation d x =
     (let k = nat (5 - x) in with_fraction (digits (d div 10 ^ k)) (pad_digits k (d mod 10 ^ k)))"

definition scientific_notation :: "nat \<Rightarrow> int \<Rightarrow> string" where
  "scientific_notation d x =
     with_fraction (digits (d div 10 ^ 5)) (pad_digits 5 (d mod 10 ^ 5))
       @ ''e'' @ (if x < 0 then ''-'' else ''+'') @ pad_digits 2 (nat \<bar>x\<bar>)"

definition put_float :: "float32 \<Rightarrow> string" where
  "put_float w =
     (let sgn = (if sign_bit w then ''-'' else '''') in
      if biased_exponent w = 255 then sgn @ (if fraction w = 0 then ''inf'' else ''nan'')
      else
        (case magnitude w of (num, den) \<Rightarrow>
           if num = 0 then sgn @ ''0''
           else
             (let x0 = decimal_exponent num den;
                  d0 = significand num den x0;
                  d = (if d0 = 10 ^ 6 then 10 ^ 5 else d0);
                  x = (if d0 = 10 ^ 6 then x0 + 1 else x0)
              in sgn @ (if - 4 \<le> x \<and> x < 6 then fixed_notation d x
                        else scientific_notation d x))))"

text \<open>\<^verbatim>\<open>std::endl\<close> writes a newline and flushes.\<close>

definition endl :: string where
  "endl = [CHR 0x0A]"

definition put_string :: "string \<Rightarrow> ('h, 'r) state \<Rightarrow> ('h, 'r) state" where
  "put_string t s = s\<lparr>cout := cout s @ t\<rparr>"

section \<open>The callback\<close>

text \<open>
  \<^verbatim>\<open>void chatterCallback(const sensor_msgs::msg::Joy::SharedPtr msg)\<close>: two
  \<^verbatim>\<open>for\<close> loops with an \<^verbatim>\<open>int\<close> counter. The counter is an integer with the
  range of a 32-bit \<^verbatim>\<open>int\<close> checked where it is incremented. In \<^verbatim>\<open>i < size()\<close>
  the counter is converted to the unsigned 64-bit \<^verbatim>\<open>size_t\<close>, as it is for
  \<^verbatim>\<open>operator[]\<close>.
\<close>

definition INT_MAX :: int where
  "INT_MAX = 2147483647"

definition to_size_t :: "int \<Rightarrow> nat" where
  "to_size_t i = nat (i mod 2 ^ 64)"

definition element :: "'a list \<Rightarrow> nat \<Rightarrow> 'a option" where
  "element xs n = (if n < length xs then Some (xs ! n) else None)"

text \<open>The characters one pass through a loop body inserts.\<close>

definition axis_line :: "int \<Rightarrow> float32 \<Rightarrow> string" where
  "axis_line i v = ''axis '' @ put_int i @ '': '' @ put_float v"

definition button_line :: "int \<Rightarrow> int32 \<Rightarrow> string" where
  "button_line i b = ''button '' @ put_int i @ '': '' @ put_int (sint b)"

function axes_loop ::
  "int \<Rightarrow> ('h, 'r) state \<Rightarrow> (undefined_behaviour + unit) \<times> ('h, 'r) state" where
  "axes_loop i s =
     (if to_size_t i < length (axes (msg s)) then
        (case element (axes (msg s)) (to_size_t i) of
           None \<Rightarrow> (Inl OutOfRange, s)
         | Some v \<Rightarrow>
             (let s' = put_string (axis_line i v @ endl) s in
              if INT_MAX \<le> i then (Inl SignedOverflow, s') else axes_loop (i + 1) s'))
      else (Inr (), s))"
  by pat_completeness auto
termination
  by (relation "measure (\<lambda>(i, s). nat (INT_MAX - i))") auto

function buttons_loop ::
  "int \<Rightarrow> ('h, 'r) state \<Rightarrow> (undefined_behaviour + unit) \<times> ('h, 'r) state" where
  "buttons_loop i s =
     (if to_size_t i < length (buttons (msg s)) then
        (case element (buttons (msg s)) (to_size_t i) of
           None \<Rightarrow> (Inl OutOfRange, s)
         | Some b \<Rightarrow>
             (let s' = put_string (button_line i b @ endl) s in
              if INT_MAX \<le> i then (Inl SignedOverflow, s') else buttons_loop (i + 1) s'))
      else (Inr (), s))"
  by pat_completeness auto
termination
  by (relation "measure (\<lambda>(i, s). nat (INT_MAX - i))") auto

declare axes_loop.simps [simp del] buttons_loop.simps [simp del]

definition chatterCallback ::
  "('h, 'r) state \<Rightarrow> (undefined_behaviour + unit) \<times> ('h, 'r) state" where
  "chatterCallback s =
     (case axes_loop 0 s of
        (Inl u, s') \<Rightarrow> (Inl u, s')
      | (Inr _, s') \<Rightarrow> buttons_loop 0 s')"

section \<open>The program\<close>

text \<open>
  \<^verbatim>\<open>main\<close> calls the middleware four times and returns 0. The middleware is not part
  of this program: what is recorded is the sequence of calls \<^verbatim>\<open>main\<close> makes, with
  their arguments. Each call can throw, and \<^verbatim>\<open>rclcpp::spin\<close> returns only once a
  shutdown has been requested from outside; the environment says which. \<^verbatim>\<open>main\<close>
  catches nothing, so an exception ends the process in \<^verbatim>\<open>std::terminate\<close>.
  \<^verbatim>\<open>rmw_qos_profile_default\<close> is a constant of the middleware, taken as a parameter.
\<close>

datatype callback = ChatterCallback

datatype 'q call =
    Init "string list"
  | Make_node string
  | Create_subscription string string callback 'q
  | Spin string

datatype spin_result = Spin_returns | Spin_throws | Spin_blocks

record environment =
  init_throws :: bool
  make_shared_throws :: bool
  create_subscription_throws :: bool
  spin_outcome :: spin_result

datatype exit = Returned int | Terminated | Never_returns

definition main :: "'q \<Rightarrow> environment \<Rightarrow> string list \<Rightarrow> exit \<times> 'q call list" where
  "main rmw_qos_profile_default env argv =
     (let c1 = [Init argv] in
      if init_throws env then (Terminated, c1)
      else
        (let c2 = c1 @ [Make_node ''listener''] in
         if make_shared_throws env then (Terminated, c2)
         else
           (let c3 = c2 @ [Create_subscription ''listener'' ''joy'' ChatterCallback
                             rmw_qos_profile_default] in
            if create_subscription_throws env then (Terminated, c3)
            else
              (let c4 = c3 @ [Spin ''listener''] in
               case spin_outcome env of
                 Spin_returns \<Rightarrow> (Returned 0, c4)
               | Spin_throws \<Rightarrow> (Terminated, c4)
               | Spin_blocks \<Rightarrow> (Never_returns, c4)))))"

fun is_subscription :: "'q call \<Rightarrow> bool" where
  "is_subscription (Create_subscription n t f q) = True"
| "is_subscription c = False"

section \<open>Reading the output\<close>

text \<open>The characters a call added to the stream.\<close>

definition written :: "('h, 'r) state \<Rightarrow> ('h, 'r) state \<Rightarrow> string" where
  "written s s' = drop (length (cout s)) (cout s')"

text \<open>The lines of a text: the pieces between newline characters.\<close>

fun lines_of :: "string \<Rightarrow> string list" where
  "lines_of [] = []"
| "lines_of (c # cs) =
     (if c = CHR 0x0A then [] # lines_of cs
      else (case lines_of cs of [] \<Rightarrow> [[c]] | l # ls \<Rightarrow> (c # l) # ls))"

text \<open>The three fields of a line \<^verbatim>\<open><label> <index>: <value>\<close>.\<close>

definition label_field :: "string \<Rightarrow> string" where
  "label_field l = takeWhile (\<lambda>c. c \<noteq> CHR '' '') l"

definition index_field :: "string \<Rightarrow> string" where
  "index_field l = takeWhile (\<lambda>c. c \<noteq> CHR '':'') (drop 1 (dropWhile (\<lambda>c. c \<noteq> CHR '' '') l))"

definition value_field :: "string \<Rightarrow> string" where
  "value_field l = drop 2 (dropWhile (\<lambda>c. c \<noteq> CHR '':'') l)"

definition axis_lines :: "string \<Rightarrow> string list" where
  "axis_lines out = filter (\<lambda>l. label_field l = ''axis'') (lines_of out)"

definition button_lines :: "string \<Rightarrow> string list" where
  "button_lines out = filter (\<lambda>l. label_field l = ''button'') (lines_of out)"

text \<open>
  Reading a numeral back, strictly: the result is \<open>None\<close> unless the text is what
  \<^verbatim>\<open>%d\<close> prints for some number, so only digits, at least one, no leading zero on a
  longer numeral, and a minus sign only in front of a positive numeral.
\<close>

definition digit_value :: "char \<Rightarrow> nat option" where
  "digit_value c =
     (let n = (of_char c :: nat) in if 48 \<le> n \<and> n \<le> 57 then Some (n - 48) else None)"

fun decimal_from :: "nat \<Rightarrow> string \<Rightarrow> nat option" where
  "decimal_from n [] = Some n"
| "decimal_from n (c # cs) =
     (case digit_value c of None \<Rightarrow> None | Some d \<Rightarrow> decimal_from (10 * n + d) cs)"

definition decimal :: "string \<Rightarrow> nat option" where
  "decimal ds =
     (case ds of
        [] \<Rightarrow> None
      | c # cs \<Rightarrow> if c = CHR ''0'' \<and> cs \<noteq> [] then None else decimal_from 0 ds)"

definition signed_decimal :: "string \<Rightarrow> int option" where
  "signed_decimal t =
     (case t of
        [] \<Rightarrow> None
      | c # ds \<Rightarrow>
          if c = CHR ''-'' then
            (case decimal ds of
               None \<Rightarrow> None
             | Some n \<Rightarrow> if n = 0 then None else Some (- int n))
          else map_option int (decimal t))"

text \<open>
  What the loops write from counter value \<open>j\<close> on, and how a loop over \<open>n\<close> elements
  ends: an \<^verbatim>\<open>int\<close> counts no further than \<open>2 ^ 31 - 1\<close>.
\<close>

definition axes_text :: "float32 list \<Rightarrow> nat \<Rightarrow> string" where
  "axes_text xs j =
     concat (map (\<lambda>k. axis_line (int k) (xs ! k) @ endl) [j ..< min (length xs) (2 ^ 31)])"

definition buttons_text :: "int32 list \<Rightarrow> nat \<Rightarrow> string" where
  "buttons_text bs j =
     concat (map (\<lambda>k. button_line (int k) (bs ! k) @ endl) [j ..< min (length bs) (2 ^ 31)])"

definition loop_end :: "nat \<Rightarrow> undefined_behaviour + unit" where
  "loop_end n = (if 2 ^ 31 \<le> n then Inl SignedOverflow else Inr ())"

section \<open>The loops, run to their end\<close>

lemma put_string_fields [simp]:
  "cout (put_string t s) = cout s @ t" "msg (put_string t s) = msg s" "rest (put_string t s) = rest s"
  by (simp_all add: put_string_def)

lemma put_string_Nil [simp]: "put_string [] s = s"
  by (simp add: put_string_def)

lemma put_string_twice [simp]: "put_string b (put_string a s) = put_string (a @ b) s"
  by (simp add: put_string_def)

lemma to_size_t_counter: "0 \<le> i \<Longrightarrow> i \<le> INT_MAX \<Longrightarrow> to_size_t i = nat i"
  by (simp add: to_size_t_def INT_MAX_def)

lemma axes_text_step:
  "j < length xs \<Longrightarrow> j < 2 ^ 31 \<Longrightarrow>
   axes_text xs j = axis_line (int j) (xs ! j) @ endl @ axes_text xs (Suc j)"
  by (simp add: axes_text_def upt_conv_Cons)

lemma axes_text_done: "length xs \<le> j \<or> 2 ^ 31 \<le> j \<Longrightarrow> axes_text xs j = []"
  by (auto simp: axes_text_def)

lemma axes_loop_run:
  "0 \<le> i \<Longrightarrow> i \<le> INT_MAX \<Longrightarrow>
   axes_loop i s = (loop_end (length (axes (msg s))), put_string (axes_text (axes (msg s)) (nat i)) s)"
proof (induction i s rule: axes_loop.induct)
  case (1 i s)
  let ?xs = "axes (msg s)"
  have sz: "to_size_t i = nat i"
    using "1.prems" by (rule to_size_t_counter)
  show ?case
  proof (cases "nat i < length ?xs")
    case False
    then have "length ?xs \<le> nat i" by simp
    moreover have "nat i < 2 ^ 31"
      using "1.prems" by (simp add: INT_MAX_def)
    ultimately have "loop_end (length ?xs) = Inr ()" "axes_text ?xs (nat i) = []"
      by (simp_all add: loop_end_def axes_text_done)
    with False sz show ?thesis
      by (subst axes_loop.simps) simp
  next
    case True
    have small: "nat i < 2 ^ 31"
      using "1.prems" by (simp add: INT_MAX_def)
    have el: "element ?xs (to_size_t i) = Some (?xs ! nat i)"
      using True sz by (simp add: element_def)
    have step: "axes_text ?xs (nat i)
        = axis_line (int (nat i)) (?xs ! nat i) @ endl @ axes_text ?xs (Suc (nat i))"
      using True small by (rule axes_text_step)
    have idx: "int (nat i) = i"
      using "1.prems" by simp
    show ?thesis
    proof (cases "INT_MAX \<le> i")
      case top: True
      then have "i = INT_MAX"
        using "1.prems" by simp
      then have "2 ^ 31 \<le> Suc (nat i)" "2 ^ 31 \<le> length ?xs"
        using True by (simp_all add: INT_MAX_def)
      then have "axes_text ?xs (Suc (nat i)) = []" "loop_end (length ?xs) = Inl SignedOverflow"
        by (simp_all add: axes_text_done loop_end_def)
      with True sz el step idx top show ?thesis
        by (subst axes_loop.simps) simp
    next
      case below: False
      let ?s' = "put_string (axis_line i (?xs ! nat i) @ endl) s"
      have "axes_loop (i + 1) ?s'
          = (loop_end (length (axes (msg ?s'))), put_string (axes_text (axes (msg ?s')) (nat (i + 1))) ?s')"
        using True sz el below "1.prems" by (intro "1.IH") simp_all
      moreover have "nat (i + 1) = Suc (nat i)"
        using "1.prems" by simp
      ultimately have "axes_loop (i + 1) ?s'
          = (loop_end (length ?xs), put_string (axis_line i (?xs ! nat i) @ endl @ axes_text ?xs (Suc (nat i))) s)"
        by simp
      with True sz el step idx below show ?thesis
        by (subst axes_loop.simps) simp
    qed
  qed
qed

lemma buttons_text_step:
  "j < length bs \<Longrightarrow> j < 2 ^ 31 \<Longrightarrow>
   buttons_text bs j = button_line (int j) (bs ! j) @ endl @ buttons_text bs (Suc j)"
  by (simp add: buttons_text_def upt_conv_Cons)

lemma buttons_text_done: "length bs \<le> j \<or> 2 ^ 31 \<le> j \<Longrightarrow> buttons_text bs j = []"
  by (auto simp: buttons_text_def)

lemma buttons_loop_run:
  "0 \<le> i \<Longrightarrow> i \<le> INT_MAX \<Longrightarrow>
   buttons_loop i s = (loop_end (length (buttons (msg s))), put_string (buttons_text (buttons (msg s)) (nat i)) s)"
proof (induction i s rule: buttons_loop.induct)
  case (1 i s)
  let ?bs = "buttons (msg s)"
  have sz: "to_size_t i = nat i"
    using "1.prems" by (rule to_size_t_counter)
  show ?case
  proof (cases "nat i < length ?bs")
    case False
    then have "length ?bs \<le> nat i" by simp
    moreover have "nat i < 2 ^ 31"
      using "1.prems" by (simp add: INT_MAX_def)
    ultimately have "loop_end (length ?bs) = Inr ()" "buttons_text ?bs (nat i) = []"
      by (simp_all add: loop_end_def buttons_text_done)
    with False sz show ?thesis
      by (subst buttons_loop.simps) simp
  next
    case True
    have small: "nat i < 2 ^ 31"
      using "1.prems" by (simp add: INT_MAX_def)
    have el: "element ?bs (to_size_t i) = Some (?bs ! nat i)"
      using True sz by (simp add: element_def)
    have step: "buttons_text ?bs (nat i)
        = button_line (int (nat i)) (?bs ! nat i) @ endl @ buttons_text ?bs (Suc (nat i))"
      using True small by (rule buttons_text_step)
    have idx: "int (nat i) = i"
      using "1.prems" by simp
    show ?thesis
    proof (cases "INT_MAX \<le> i")
      case top: True
      then have "i = INT_MAX"
        using "1.prems" by simp
      then have "2 ^ 31 \<le> Suc (nat i)" "2 ^ 31 \<le> length ?bs"
        using True by (simp_all add: INT_MAX_def)
      then have "buttons_text ?bs (Suc (nat i)) = []" "loop_end (length ?bs) = Inl SignedOverflow"
        by (simp_all add: buttons_text_done loop_end_def)
      with True sz el step idx top show ?thesis
        by (subst buttons_loop.simps) simp
    next
      case below: False
      let ?s' = "put_string (button_line i (?bs ! nat i) @ endl) s"
      have "buttons_loop (i + 1) ?s'
          = (loop_end (length (buttons (msg ?s'))), put_string (buttons_text (buttons (msg ?s')) (nat (i + 1))) ?s')"
        using True sz el below "1.prems" by (intro "1.IH") simp_all
      moreover have "nat (i + 1) = Suc (nat i)"
        using "1.prems" by simp
      ultimately have "buttons_loop (i + 1) ?s'
          = (loop_end (length ?bs), put_string (button_line i (?bs ! nat i) @ endl @ buttons_text ?bs (Suc (nat i))) s)"
        by simp
      with True sz el step idx below show ?thesis
        by (subst buttons_loop.simps) simp
    qed
  qed
qed


lemma chatterCallback_run:
  "chatterCallback s =
     (if 2 ^ 31 \<le> length (axes (msg s))
      then (Inl SignedOverflow, put_string (axes_text (axes (msg s)) 0) s)
      else (loop_end (length (buttons (msg s))),
            put_string (axes_text (axes (msg s)) 0 @ buttons_text (buttons (msg s)) 0) s))"
proof -
  have a: "axes_loop 0 s = (loop_end (length (axes (msg s))), put_string (axes_text (axes (msg s)) 0) s)"
    using axes_loop_run [of 0 s] by (simp add: INT_MAX_def)
  have b: "buttons_loop 0 t = (loop_end (length (buttons (msg t))), put_string (buttons_text (buttons (msg t)) 0) t)"
    for t :: "('a, 'b) state"
    using buttons_loop_run [of 0 t] by (simp add: INT_MAX_def)
  show ?thesis
    by (simp add: chatterCallback_def a b loop_end_def)
qed

section \<open>Rendered numbers\<close>

subsection \<open>The characters of a rendered number\<close>

lemma digit_char_digit: "d < 10 \<Longrightarrow> digit_char d \<in> set ''0123456789''"
  unfolding digit_char_def by (rule nth_mem) simp

lemma digits_chars: "set (digits n) \<subseteq> set ''0123456789''"
proof (induction n rule: digits.induct)
  case (1 n)
  show ?case
  proof (cases "n < 10")
    case True
    then have "digits n = [digit_char n]"
      by (subst digits.simps) simp
    with True digit_char_digit [of n] show ?thesis
      by simp
  next
    case False
    then have "digits n = digits (n div 10) @ [digit_char (n mod 10)]"
      by (subst digits.simps) simp
    moreover have "digit_char (n mod 10) \<in> set ''0123456789''"
      by (rule digit_char_digit) simp
    ultimately show ?thesis
      using "1.IH" False by simp
  qed
qed

lemma digits_not_Nil: "digits n \<noteq> []"
  by (subst digits.simps) simp

lemma put_int_chars: "set (put_int k) \<subseteq> insert (CHR ''-'') (set ''0123456789'')"
proof -
  define D where "D = set ''0123456789''"
  have d: "set (digits n) \<subseteq> D" for n
    unfolding D_def by (rule digits_chars)
  have "set (put_int k) \<subseteq> insert (CHR ''-'') D"
  proof (cases "k < 0")
    case True
    then have "put_int k = CHR ''-'' # digits (nat (- k))"
      by (simp add: put_int_def)
    with d [of "nat (- k)"] show ?thesis
      by (simp add: subset_insertI2)
  next
    case False
    then have "put_int k = digits (nat k)"
      by (simp add: put_int_def)
    with d [of "nat k"] show ?thesis
      by (simp add: subset_insertI2)
  qed
  then show ?thesis
    by (simp only: D_def)
qed

lemma pad_digits_chars: "set (pad_digits k n) \<subseteq> set ''0123456789''"
proof -
  define D where "D = set ''0123456789''"
  have d: "set (digits n) \<subseteq> D"
    unfolding D_def by (rule digits_chars)
  have z: "CHR ''0'' \<in> D"
    by (simp add: D_def)
  have "set (replicate j (CHR ''0'')) \<subseteq> D" for j
    using z by (simp add: set_replicate_conv_if)
  with d have "set (pad_digits k n) \<subseteq> D"
    by (simp add: pad_digits_def)
  then show ?thesis
    by (simp only: D_def)
qed

lemma strip_zeros_chars: "set (strip_zeros ds) \<subseteq> set ds"
  unfolding strip_zeros_def by (metis set_dropWhileD set_rev subsetI)

lemma with_fraction_chars: "set (with_fraction ip fp) \<subseteq> set ip \<union> set fp \<union> {CHR ''.''}"
proof (cases "strip_zeros fp = []")
  case True
  then show ?thesis
    by (auto simp: with_fraction_def)
next
  case False
  then have "set (with_fraction ip fp) = set ip \<union> {CHR ''.''} \<union> set (strip_zeros fp)"
    by (simp add: with_fraction_def)
  with strip_zeros_chars [of fp] show ?thesis
    by blast
qed

lemma fixed_notation_chars: "set (fixed_notation d x) \<subseteq> set ''0123456789'' \<union> {CHR ''.''}"
proof -
  let ?k = "nat (5 - x)"
  define D where "D = set ''0123456789''"
  have "set (fixed_notation d x)
      \<subseteq> set (digits (d div 10 ^ ?k)) \<union> set (pad_digits ?k (d mod 10 ^ ?k)) \<union> {CHR ''.''}"
    unfolding fixed_notation_def Let_def by (rule with_fraction_chars)
  moreover have "set (digits (d div 10 ^ ?k)) \<subseteq> D"
    unfolding D_def by (rule digits_chars)
  moreover have "set (pad_digits ?k (d mod 10 ^ ?k)) \<subseteq> D"
    unfolding D_def by (rule pad_digits_chars)
  ultimately have "set (fixed_notation d x) \<subseteq> D \<union> {CHR ''.''}"
    by blast
  then show ?thesis
    by (simp only: D_def)
qed

lemma scientific_notation_chars:
  "set (scientific_notation d x)
     \<subseteq> set ''0123456789'' \<union> {CHR ''.'', CHR ''e'', CHR ''-'', CHR ''+''}"
proof -
  define D where "D = set ''0123456789''"
  define m where "m = with_fraction (digits (d div 10 ^ 5)) (pad_digits 5 (d mod 10 ^ 5))"
  define e where "e = pad_digits 2 (nat \<bar>x\<bar>)"
  have "set m \<subseteq> set (digits (d div 10 ^ 5)) \<union> set (pad_digits 5 (d mod 10 ^ 5)) \<union> {CHR ''.''}"
    unfolding m_def by (rule with_fraction_chars)
  moreover have "set (digits (d div 10 ^ 5)) \<subseteq> D"
    unfolding D_def by (rule digits_chars)
  moreover have "set (pad_digits 5 (d mod 10 ^ 5)) \<subseteq> D"
    unfolding D_def by (rule pad_digits_chars)
  ultimately have m: "set m \<subseteq> D \<union> {CHR ''.''}"
    by blast
  have e: "set e \<subseteq> D"
    unfolding D_def e_def by (rule pad_digits_chars)
  have "scientific_notation d x = m @ ''e'' @ (if x < 0 then ''-'' else ''+'') @ e"
    by (simp add: scientific_notation_def m_def e_def)
  then have "set (scientific_notation d x) \<subseteq> set m \<union> {CHR ''e'', CHR ''-'', CHR ''+''} \<union> set e"
    by (cases "x < 0") auto
  with m e have "set (scientific_notation d x) \<subseteq> D \<union> {CHR ''.'', CHR ''e'', CHR ''-'', CHR ''+''}"
    by blast
  then show ?thesis
    by (simp only: D_def)
qed

lemma put_float_chars:
  "set (put_float w)
     \<subseteq> set ''0123456789'' \<union> {CHR ''.'', CHR ''e'', CHR ''-'', CHR ''+''} \<union> set ''infa''"
proof -
  define D where "D = set ''0123456789''"
  define S where "S = {CHR ''.'', CHR ''e'', CHR ''-'', CHR ''+''}"
  define W where "W = set ''infa''"
  define A where "A = D \<union> S \<union> W"
  have f: "set (fixed_notation d x) \<subseteq> A" for d x
    using fixed_notation_chars [of d x] unfolding A_def D_def S_def by blast
  have s: "set (scientific_notation d x) \<subseteq> A" for d x
    using scientific_notation_chars [of d x] unfolding A_def D_def S_def by blast
  have sg: "set (if sign_bit w then ''-'' else []) \<subseteq> A"
    by (auto simp: A_def S_def)
  have ifI: "set (if c then t else e) \<subseteq> A" if "set t \<subseteq> A" "set e \<subseteq> A"
    for c and t e :: string
    using that by simp
  have w: "set ''inf'' \<subseteq> A" "set ''nan'' \<subseteq> A"
    by (simp_all add: A_def W_def)
  have z: "set ''0'' \<subseteq> A"
    by (simp add: A_def D_def)
  obtain num den where m: "magnitude w = (num, den)"
    by (cases "magnitude w")
  define body where "body =
     (if biased_exponent w = 255 then (if fraction w = 0 then ''inf'' else ''nan'')
      else if num = 0 then ''0''
      else
        (let x0 = decimal_exponent num den;
             d0 = significand num den x0;
             d = (if d0 = 10 ^ 6 then 10 ^ 5 else d0);
             x = (if d0 = 10 ^ 6 then x0 + 1 else x0)
         in if - 4 \<le> x \<and> x < 6 then fixed_notation d x else scientific_notation d x))"
  have b: "set body \<subseteq> A"
    unfolding body_def Let_def by (intro ifI f s w z)
  have "put_float w = (if sign_bit w then ''-'' else []) @ body"
    unfolding put_float_def body_def Let_def m by simp
  with sg b have "set (put_float w) \<subseteq> A"
    by simp
  then show ?thesis
    by (simp only: A_def D_def S_def W_def)
qed

lemma put_float_no_newline: "CHR 0x0A \<notin> set (put_float w)"
proof -
  have "CHR 0x0A \<notin> set ''0123456789'' \<union> {CHR ''.'', CHR ''e'', CHR ''-'', CHR ''+''} \<union> set ''infa''"
    by simp
  with put_float_chars [of w] show ?thesis
    by blast
qed

lemma put_int_no_newline: "CHR 0x0A \<notin> set (put_int k)"
proof -
  have "CHR 0x0A \<notin> insert (CHR ''-'') (set ''0123456789'')"
    by simp
  with put_int_chars [of k] show ?thesis
    by blast
qed

lemma put_int_no_colon: "CHR '':'' \<notin> set (put_int k)"
proof -
  have "CHR '':'' \<notin> insert (CHR ''-'') (set ''0123456789'')"
    by simp
  with put_int_chars [of k] show ?thesis
    by blast
qed

section \<open>Lines and their fields\<close>

subsection \<open>Lines\<close>

lemma lines_of_line:
  "CHR 0x0A \<notin> set l \<Longrightarrow> lines_of (l @ endl @ t) = l # lines_of t"
  by (induction l) (auto simp: endl_def)

lemma lines_of_concat:
  "(\<And>k. CHR 0x0A \<notin> set (f k)) \<Longrightarrow>
   lines_of (concat (map (\<lambda>k. f k @ endl) ks) @ t) = map f ks @ lines_of t"
  by (induction ks) (simp_all add: lines_of_line)

lemma axis_line_no_newline: "CHR 0x0A \<notin> set (axis_line i v)"
  using put_int_no_newline [of i] put_float_no_newline [of v]
  by (simp add: axis_line_def)

lemma button_line_no_newline: "CHR 0x0A \<notin> set (button_line i b)"
  using put_int_no_newline [of i] put_int_no_newline [of "sint b"]
  by (simp add: button_line_def)

lemma lines_of_axes_text:
  "lines_of (axes_text xs j @ t)
     = map (\<lambda>k. axis_line (int k) (xs ! k)) [j ..< min (length xs) (2 ^ 31)] @ lines_of t"
  unfolding axes_text_def
  by (rule lines_of_concat [where f = "\<lambda>k. axis_line (int k) (xs ! k)"]) (rule axis_line_no_newline)

lemma lines_of_buttons_text:
  "lines_of (buttons_text bs j @ t)
     = map (\<lambda>k. button_line (int k) (bs ! k)) [j ..< min (length bs) (2 ^ 31)] @ lines_of t"
  unfolding buttons_text_def
  by (rule lines_of_concat [where f = "\<lambda>k. button_line (int k) (bs ! k)"]) (rule button_line_no_newline)

subsection \<open>Fields\<close>

lemma takeWhile_stop:
  "(\<And>c. c \<in> set xs \<Longrightarrow> P c) \<Longrightarrow> \<not> P x \<Longrightarrow> takeWhile P (xs @ x # ys) = xs"
  by (induction xs) simp_all

lemma dropWhile_stop:
  "(\<And>c. c \<in> set xs \<Longrightarrow> P c) \<Longrightarrow> \<not> P x \<Longrightarrow> dropWhile P (xs @ x # ys) = x # ys"
  by (induction xs) simp_all

lemma label_field_axis_line: "label_field (axis_line i v) = ''axis''"
  by (simp add: label_field_def axis_line_def)

lemma label_field_button_line: "label_field (button_line i b) = ''button''"
  by (simp add: label_field_def button_line_def)

lemma index_after_label:
  "takeWhile (\<lambda>c. c \<noteq> CHR '':'') (put_int i @ CHR '':'' # t) = put_int i"
  using put_int_no_colon [of i] by (intro takeWhile_stop) auto

lemma value_after_index:
  "dropWhile (\<lambda>c. c \<noteq> CHR '':'') (put_int i @ CHR '':'' # t) = CHR '':'' # t"
  using put_int_no_colon [of i] by (intro dropWhile_stop) auto

lemma index_field_axis_line: "index_field (axis_line i v) = put_int i"
  by (simp add: index_field_def axis_line_def index_after_label)

lemma index_field_button_line: "index_field (button_line i b) = put_int i"
  by (simp add: index_field_def button_line_def index_after_label)

lemma value_field_axis_line: "value_field (axis_line i v) = put_float v"
  by (simp add: value_field_def axis_line_def value_after_index)

lemma value_field_button_line: "value_field (button_line i b) = put_int (sint b)"
  by (simp add: value_field_def button_line_def value_after_index)

subsection \<open>Reading numerals back\<close>

lemma of_char_digit_char:
  assumes "d < 10"
  shows "of_char (digit_char d) = 48 + d"
proof -
  have "[0 ..< 10] = [0, 1, 2, 3, 4, 5, 6, 7, 8, 9 :: nat]"
    by (simp add: upt_rec)
  moreover have "d \<in> set [0 ..< 10]"
    using assms by simp
  ultimately have "d \<in> set [0, 1, 2, 3, 4, 5, 6, 7, 8, 9 :: nat]"
    by simp
  then show ?thesis
    by (auto simp: digit_char_def)
qed

lemma digit_value_digit_char: "d < 10 \<Longrightarrow> digit_value (digit_char d) = Some d"
  by (simp add: digit_value_def of_char_digit_char)

lemma digit_char_zero: "d < 10 \<Longrightarrow> digit_char d = CHR ''0'' \<longleftrightarrow> d = 0"
proof -
  assume d: "d < 10"
  have z: "digit_char 0 = CHR ''0''"
    by (simp add: digit_char_def)
  show ?thesis
  proof
    assume "digit_char d = CHR ''0''"
    then have "digit_value (digit_char d) = digit_value (digit_char 0)"
      by (simp add: z)
    with d show "d = 0"
      by (simp add: digit_value_digit_char)
  next
    assume "d = 0"
    with z show "digit_char d = CHR ''0''"
      by simp
  qed
qed

lemma decimal_from_snoc:
  "decimal_from a (ds @ [c])
     = (case decimal_from a ds of
          None \<Rightarrow> None
        | Some v \<Rightarrow> (case digit_value c of None \<Rightarrow> None | Some d \<Rightarrow> Some (10 * v + d)))"
  by (induction ds arbitrary: a) (simp_all split: option.splits)

lemma decimal_from_digits: "decimal_from 0 (digits n) = Some n"
proof (induction n rule: digits.induct)
  case (1 n)
  show ?case
  proof (cases "n < 10")
    case True
    then have "digits n = [digit_char n]"
      by (subst digits.simps) simp
    with True show ?thesis
      by (simp add: digit_value_digit_char)
  next
    case False
    then have "digits n = digits (n div 10) @ [digit_char (n mod 10)]"
      by (subst digits.simps) simp
    with False "1.IH" show ?thesis
      by (simp add: decimal_from_snoc digit_value_digit_char)
  qed
qed

lemma hd_digits: "0 < n \<Longrightarrow> hd (digits n) \<noteq> CHR ''0''"
proof (induction n rule: digits.induct)
  case (1 n)
  show ?case
  proof (cases "n < 10")
    case True
    then have "digits n = [digit_char n]"
      by (subst digits.simps) simp
    with True "1.prems" show ?thesis
      by (simp add: digit_char_zero)
  next
    case False
    then have "digits n = digits (n div 10) @ [digit_char (n mod 10)]"
      by (subst digits.simps) simp
    moreover have "hd (digits (n div 10)) \<noteq> CHR ''0''"
      using False by (intro "1.IH") simp_all
    ultimately show ?thesis
      by (simp add: hd_append digits_not_Nil)
  qed
qed

lemma digits_zero: "digits 0 = ''0''"
  by (subst digits.simps) (simp add: digit_char_def)

lemma decimal_digits: "decimal (digits n) = Some n"
proof (cases "n = 0")
  case True
  then show ?thesis
    by (simp add: decimal_def digits_zero digit_value_def)
next
  case False
  obtain c cs where cd: "digits n = c # cs"
    using digits_not_Nil [of n] by (cases "digits n") auto
  have "c \<noteq> CHR ''0''"
    using hd_digits [of n] False cd by simp
  with cd decimal_from_digits [of n] show ?thesis
    by (simp add: decimal_def)
qed

lemma decimal_put_int: "0 \<le> k \<Longrightarrow> decimal (put_int k) = Some (nat k)"
  by (simp add: put_int_def decimal_digits)

lemma signed_decimal_put_int: "signed_decimal (put_int k) = Some k"
proof (cases "k < 0")
  case True
  then show ?thesis
    by (simp add: put_int_def signed_decimal_def decimal_digits)
next
  case False
  obtain c ds where cd: "digits (nat k) = c # ds"
    using digits_not_Nil [of "nat k"] by (cases "digits (nat k)") auto
  have "c \<in> set ''0123456789''"
    using digits_chars [of "nat k"] cd by auto
  then have "c \<noteq> CHR ''-''"
    by auto
  with False cd decimal_digits [of "nat k"] show ?thesis
    by (simp add: put_int_def signed_decimal_def)
qed

text \<open>The reader refuses what is not a numeral.\<close>

lemma decimal_refuses:
  "decimal '''' = None" "decimal ''-1'' = None" "decimal ''01'' = None" "decimal ''1x'' = None"
  "signed_decimal ''-0'' = None" "signed_decimal ''--1'' = None"
  by (simp_all add: decimal_def signed_decimal_def digit_value_def)

section \<open>What a call writes\<close>

lemma written_put_string: "written s (put_string t s) = t"
  by (simp add: written_def)

lemma written_chatterCallback:
  "written s (snd (chatterCallback s))
     = axes_text (axes (msg s)) 0
       @ (if 2 ^ 31 \<le> length (axes (msg s)) then [] else buttons_text (buttons (msg s)) 0)"
  by (simp add: chatterCallback_run written_put_string)

lemma lines_of_buttons_text_only:
  "lines_of (buttons_text bs j)
     = map (\<lambda>k. button_line (int k) (bs ! k)) [j ..< min (length bs) (2 ^ 31)]"
  using lines_of_buttons_text [of bs j "[]"] by simp

lemma lines_written:
  "lines_of (written s (snd (chatterCallback s)))
     = map (\<lambda>k. axis_line (int k) (axes (msg s) ! k)) [0 ..< min (length (axes (msg s))) (2 ^ 31)]
       @ (if 2 ^ 31 \<le> length (axes (msg s)) then []
          else map (\<lambda>k. button_line (int k) (buttons (msg s) ! k))
                 [0 ..< min (length (buttons (msg s))) (2 ^ 31)])"
  by (simp add: written_chatterCallback lines_of_axes_text lines_of_buttons_text_only)

lemma axis_lines_written:
  "axis_lines (written s (snd (chatterCallback s)))
     = map (\<lambda>k. axis_line (int k) (axes (msg s) ! k)) [0 ..< min (length (axes (msg s))) (2 ^ 31)]"
  by (simp add: axis_lines_def lines_written filter_map comp_def
      label_field_axis_line label_field_button_line)

lemma button_lines_written:
  "button_lines (written s (snd (chatterCallback s)))
     = (if 2 ^ 31 \<le> length (axes (msg s)) then []
        else map (\<lambda>k. button_line (int k) (buttons (msg s) ! k))
               [0 ..< min (length (buttons (msg s))) (2 ^ 31)])"
  by (simp add: button_lines_def lines_written filter_map comp_def
      label_field_axis_line label_field_button_line)

lemma map_nth_take: "n \<le> length xs \<Longrightarrow> map (\<lambda>k. f (xs ! k)) [0 ..< n] = map f (take n xs)"
  by (rule nth_equalityI) simp_all

section \<open>Runs within and beyond the counter's range\<close>

lemma chatterCallback_in_range:
  assumes "length (axes (msg s)) < 2 ^ 31" and "length (buttons (msg s)) < 2 ^ 31"
  shows "fst (chatterCallback s) = Inr ()"
    and "lines_of (written s (snd (chatterCallback s)))
           = map (\<lambda>k. axis_line (int k) (axes (msg s) ! k)) [0 ..< length (axes (msg s))]
             @ map (\<lambda>k. button_line (int k) (buttons (msg s) ! k)) [0 ..< length (buttons (msg s))]"
    and "length (lines_of (written s (snd (chatterCallback s))))
           = length (axes (msg s)) + length (buttons (msg s))"
proof -
  show "fst (chatterCallback s) = Inr ()"
    using assms by (simp add: chatterCallback_run loop_end_def)
  show l: "lines_of (written s (snd (chatterCallback s)))
           = map (\<lambda>k. axis_line (int k) (axes (msg s) ! k)) [0 ..< length (axes (msg s))]
             @ map (\<lambda>k. button_line (int k) (buttons (msg s) ! k)) [0 ..< length (buttons (msg s))]"
    using assms by (simp add: lines_written)
  show "length (lines_of (written s (snd (chatterCallback s))))
           = length (axes (msg s)) + length (buttons (msg s))"
    unfolding l by simp
qed

lemma chatterCallback_status:
  "fst (chatterCallback s)
     = (if 2 ^ 31 \<le> length (axes (msg s)) \<or> 2 ^ 31 \<le> length (buttons (msg s))
        then Inl SignedOverflow else Inr ())"
  by (simp add: chatterCallback_run loop_end_def)

lemma chatterCallback_never_out_of_range: "fst (chatterCallback s) \<noteq> Inl OutOfRange"
  by (simp add: chatterCallback_status)

lemma overflow_lines:
  assumes "length (axes (msg s)) = 2 ^ 31"
  shows "fst (chatterCallback s) = Inl SignedOverflow"
    and "length (lines_of (written s (snd (chatterCallback s)))) = 2 ^ 31"
  using assms by (simp_all add: chatterCallback_status lines_written)

lemma axis_lines_indexed:
  obtains n where "n \<le> length (axes (msg s))"
    and "axis_lines (written s (snd (chatterCallback s)))
           = map (\<lambda>k. axis_line (int k) (axes (msg s) ! k)) [0 ..< n]"
proof
  show "min (length (axes (msg s))) (2 ^ 31) \<le> length (axes (msg s))"
    by (rule min.cobounded1)
  show "axis_lines (written s (snd (chatterCallback s)))
      = map (\<lambda>k. axis_line (int k) (axes (msg s) ! k)) [0 ..< min (length (axes (msg s))) (2 ^ 31)]"
    by (rule axis_lines_written)
qed

lemma button_lines_indexed:
  obtains m where "m \<le> length (buttons (msg s))"
    and "button_lines (written s (snd (chatterCallback s)))
           = map (\<lambda>k. button_line (int k) (buttons (msg s) ! k)) [0 ..< m]"
proof (cases "(2::nat) ^ 31 \<le> length (axes (msg s))")
  case True
  show ?thesis
  proof
    show "0 \<le> length (buttons (msg s))"
      by simp
    show "button_lines (written s (snd (chatterCallback s)))
        = map (\<lambda>k. button_line (int k) (buttons (msg s) ! k)) [0 ..< 0]"
      using True by (simp add: button_lines_written)
  qed
next
  case False
  show ?thesis
  proof
    show "min (length (buttons (msg s))) (2 ^ 31) \<le> length (buttons (msg s))"
      by (rule min.cobounded1)
    show "button_lines (written s (snd (chatterCallback s)))
        = map (\<lambda>k. button_line (int k) (buttons (msg s) ! k))
            [0 ..< min (length (buttons (msg s))) (2 ^ 31)]"
      using False by (simp add: button_lines_written)
  qed
qed

lemma axis_lines_count:
  "length (axis_lines (written s (snd (chatterCallback s)))) = min (length (axes (msg s))) (2 ^ 31)"
  by (simp add: axis_lines_written)

lemma axis_lines_in_range:
  assumes "length (axes (msg s)) < 2 ^ 31"
  shows "axis_lines (written s (snd (chatterCallback s)))
           = map (\<lambda>k. axis_line (int k) (axes (msg s) ! k)) [0 ..< length (axes (msg s))]"
  using assms by (simp add: axis_lines_written)

lemma button_lines_in_range:
  assumes "length (axes (msg s)) < 2 ^ 31" and "length (buttons (msg s)) < 2 ^ 31"
  shows "button_lines (written s (snd (chatterCallback s)))
           = map (\<lambda>k. button_line (int k) (buttons (msg s) ! k)) [0 ..< length (buttons (msg s))]"
  using assms by (simp add: button_lines_written)

text \<open>
  While both sequences have fewer than \<open>2 ^ 31\<close> elements, every element has its line
  and the value field of the line is the rendering of the element itself.
\<close>

lemma chatterCallback_values_in_range:
  assumes "length (axes (msg s)) < 2 ^ 31" and "length (buttons (msg s)) < 2 ^ 31"
  shows "map value_field (axis_lines (written s (snd (chatterCallback s))))
           = map put_float (axes (msg s))"
    and "map value_field (button_lines (written s (snd (chatterCallback s))))
           = map (put_int \<circ> sint) (buttons (msg s))"
    and "map (signed_decimal \<circ> value_field) (button_lines (written s (snd (chatterCallback s))))
           = map (Some \<circ> sint) (buttons (msg s))"
proof -
  let ?xs = "axes (msg s)" and ?bs = "buttons (msg s)"
  have a: "axis_lines (written s (snd (chatterCallback s)))
      = map (\<lambda>k. axis_line (int k) (?xs ! k)) [0 ..< length ?xs]"
    using assms(1) by (rule axis_lines_in_range)
  have b: "button_lines (written s (snd (chatterCallback s)))
      = map (\<lambda>k. button_line (int k) (?bs ! k)) [0 ..< length ?bs]"
    using assms by (rule button_lines_in_range)
  have "map value_field (map (\<lambda>k. axis_line (int k) (?xs ! k)) [0 ..< length ?xs])
      = map (\<lambda>k. put_float (?xs ! k)) [0 ..< length ?xs]"
    by (simp add: value_field_axis_line)
  also have "\<dots> = map put_float (take (length ?xs) ?xs)"
    by (rule map_nth_take) simp
  finally show "map value_field (axis_lines (written s (snd (chatterCallback s))))
      = map put_float ?xs"
    unfolding a by simp
  have "map value_field (map (\<lambda>k. button_line (int k) (?bs ! k)) [0 ..< length ?bs])
      = map (\<lambda>k. (put_int \<circ> sint) (?bs ! k)) [0 ..< length ?bs]"
    by (simp add: value_field_button_line)
  also have "\<dots> = map (put_int \<circ> sint) (take (length ?bs) ?bs)"
    by (rule map_nth_take) simp
  finally show "map value_field (button_lines (written s (snd (chatterCallback s))))
      = map (put_int \<circ> sint) ?bs"
    unfolding b by simp
  have "map (signed_decimal \<circ> value_field) (map (\<lambda>k. button_line (int k) (?bs ! k)) [0 ..< length ?bs])
      = map (\<lambda>k. (Some \<circ> sint) (?bs ! k)) [0 ..< length ?bs]"
    by (simp add: value_field_button_line signed_decimal_put_int)
  also have "\<dots> = map (Some \<circ> sint) (take (length ?bs) ?bs)"
    by (rule map_nth_take) simp
  finally show "map (signed_decimal \<circ> value_field)
        (button_lines (written s (snd (chatterCallback s))))
      = map (Some \<circ> sint) ?bs"
    unfolding b by simp
qed

section \<open>Two float values and their rendering\<close>

lemma decode_half:
  "sign_bit 0x3F000000 = False" "biased_exponent 0x3F000000 = 126" "fraction 0x3F000000 = 0"
  by (simp_all add: sign_bit_def biased_exponent_def fraction_def)

lemma decode_minus_one:
  "sign_bit 0xBF800000 = True" "biased_exponent 0xBF800000 = 127" "fraction 0xBF800000 = 0"
  by (simp_all add: sign_bit_def biased_exponent_def fraction_def)

lemma magnitude_half: "magnitude 0x3F000000 = (8388608, 16777216)"
  by (simp add: magnitude_def decode_half)

lemma magnitude_minus_one: "magnitude 0xBF800000 = (8388608, 8388608)"
  by (simp add: magnitude_def decode_minus_one)

lemma value_half: "float32_value 0x3F000000 = Some (1 / 2)"
  by (simp add: float32_value_def decode_half magnitude_half)

lemma value_minus_one: "float32_value 0xBF800000 = Some (- 1)"
  by (simp add: float32_value_def decode_minus_one magnitude_minus_one)

lemma digits_small: "digits 0 = ''0''" "digits 1 = ''1''" "digits (Suc 0) = ''1''"
  by (simp_all add: digits.simps digit_char_def)

lemma put_float_half: "put_float 0x3F000000 = ''0.5''"
proof -
  have x: "decimal_exponent 8388608 16777216 = - 1"
    by (simp add: decimal_exponent_def scale_up.simps)
  have d: "significand 8388608 16777216 (- 1) = 500000"
    by (simp add: significand_def round_half_even_def)
  have p: "pad_digits 6 500000 = ''500000''"
    by (simp add: pad_digits_def digits.simps digit_char_def)
  have z: "strip_zeros ''500000'' = ''5''"
    by (simp add: strip_zeros_def)
  have f: "fixed_notation 500000 (- 1) = ''0.5''"
    by (simp add: fixed_notation_def with_fraction_def p z digits_small)
  show ?thesis
    by (simp add: put_float_def decode_half magnitude_half x d f)
qed

lemma put_float_minus_one: "put_float 0xBF800000 = ''-1''"
proof -
  have x: "decimal_exponent 8388608 8388608 = 0"
    by (simp add: decimal_exponent_def digits_small)
  have d: "significand 8388608 8388608 0 = 100000"
    by (simp add: significand_def round_half_even_def)
  have "replicate 4 (CHR ''0'') = ''0000''"
    by (simp add: eval_nat_numeral)
  then have p: "pad_digits 5 0 = ''00000''"
    by (simp add: pad_digits_def digits_small)
  have z: "strip_zeros ''00000'' = []"
    by (simp add: strip_zeros_def)
  have f: "fixed_notation 100000 0 = ''1''"
    by (simp add: fixed_notation_def with_fraction_def p z digits_small)
  show ?thesis
    by (simp add: put_float_def decode_minus_one magnitude_minus_one x d f)
qed

lemma put_int_small: "put_int 0 = ''0''" "put_int 1 = ''1''"
  by (simp_all add: put_int_def digits_small)

section \<open>The callback's output\<close>

text \<open>
  Claim C1. For a message with \<open>N\<close> axis values and \<open>M\<close> button values the callback
  should write exactly \<open>N + M\<close> lines, the axis lines first. It does so while both
  sequences have fewer than \<open>2 ^ 31\<close> elements (\<open>chatterCallback_in_range\<close>). At a message
  with \<open>2 ^ 31\<close> axis values and one button value the \<^verbatim>\<open>int\<close> counter of the first loop
  reaches \<^verbatim>\<open>INT_MAX\<close>, its increment is undefined, and only \<open>2 ^ 31\<close> lines have been
  written, one fewer than \<open>N + M\<close>: the button line is missing.
\<close>

theorem chatterCallback_long_axes_loses_lines:
  "fst (chatterCallback
         \<lparr>cout = [], msg = \<lparr>header = (), axes = replicate 2147483648 0, buttons = [0]\<rparr>,
          rest = ()\<rparr>)
     = Inl SignedOverflow
   \<and> length (lines_of (cout (snd (chatterCallback
         \<lparr>cout = [], msg = \<lparr>header = (), axes = replicate 2147483648 0, buttons = [0]\<rparr>,
          rest = ()\<rparr>))))
     = 2147483648
   \<and> length (replicate 2147483648 (0 :: float32)) + length [0 :: int32] = 2147483649"
proof -
  let ?s = "\<lparr>cout = [], msg = \<lparr>header = (), axes = replicate 2147483648 0, buttons = [0]\<rparr>,
            rest = ()\<rparr> :: (unit, unit) state"
  have n: "length (axes (msg ?s)) = 2 ^ 31"
    by simp
  have "written ?s (snd (chatterCallback ?s)) = cout (snd (chatterCallback ?s))"
    by (simp add: written_def)
  with overflow_lines [OF n] show ?thesis
    by simp
qed

text \<open>
  Claim C2. For the message with axes \<open>[0.5, -1.0]\<close> (the bit patterns \<open>0x3F000000\<close> and
  \<open>0xBF800000\<close>) and buttons \<open>[1, 0]\<close>, the callback returns normally and writes exactly
  the four lines \<^verbatim>\<open>axis 0: 0.5\<close>, \<^verbatim>\<open>axis 1: -1\<close>, \<^verbatim>\<open>button 0: 1\<close> and
  \<^verbatim>\<open>button 1: 0\<close>, in this order; \<open>-1.0\<close> is rendered as \<^verbatim>\<open>-1\<close>.
\<close>

theorem chatterCallback_example:
  "float32_value 0x3F000000 = Some (1 / 2)
   \<and> float32_value 0xBF800000 = Some (- 1)
   \<and> chatterCallback
       \<lparr>cout = [], msg = \<lparr>header = h, axes = [0x3F000000, 0xBF800000], buttons = [1, 0]\<rparr>, rest = r\<rparr>
     = (Inr (),
        \<lparr>cout = ''axis 0: 0.5'' @ endl @ ''axis 1: -1'' @ endl
                 @ ''button 0: 1'' @ endl @ ''button 1: 0'' @ endl,
         msg = \<lparr>header = h, axes = [0x3F000000, 0xBF800000], buttons = [1, 0]\<rparr>, rest = r\<rparr>)
   \<and> lines_of (''axis 0: 0.5'' @ endl @ ''axis 1: -1'' @ endl
                 @ ''button 0: 1'' @ endl @ ''button 1: 0'' @ endl)
     = [''axis 0: 0.5'', ''axis 1: -1'', ''button 0: 1'', ''button 1: 0'']"
proof -
  have a: "axes_text [0x3F000000, 0xBF800000] 0 = ''axis 0: 0.5'' @ endl @ ''axis 1: -1'' @ endl"
    by (simp add: axes_text_def axis_line_def put_float_half put_float_minus_one put_int_small)
  have b: "buttons_text [1, 0] 0 = ''button 0: 1'' @ endl @ ''button 1: 0'' @ endl"
    by (simp add: buttons_text_def button_line_def put_int_small)
  have l: "lines_of (''axis 0: 0.5'' @ endl @ ''axis 1: -1'' @ endl
                 @ ''button 0: 1'' @ endl @ ''button 1: 0'' @ endl)
     = [''axis 0: 0.5'', ''axis 1: -1'', ''button 0: 1'', ''button 1: 0'']"
    by (simp add: endl_def)
  have c: "chatterCallback
       \<lparr>cout = [], msg = \<lparr>header = h, axes = [0x3F000000, 0xBF800000], buttons = [1, 0]\<rparr>, rest = r\<rparr>
     = (Inr (),
        \<lparr>cout = ''axis 0: 0.5'' @ endl @ ''axis 1: -1'' @ endl
                 @ ''button 0: 1'' @ endl @ ''button 1: 0'' @ endl,
         msg = \<lparr>header = h, axes = [0x3F000000, 0xBF800000], buttons = [1, 0]\<rparr>, rest = r\<rparr>)"
    by (simp add: chatterCallback_run loop_end_def a b put_string_def)
  from value_half value_minus_one c l show ?thesis
    by (intro conjI)
qed

text \<open>
  Claim C3. For every message and every valid index \<open>i\<close>, the \<open>i\<close>-th axis line should
  carry the \<open>i\<close>-th element of \<open>axes\<close> untransformed, and the \<open>i\<close>-th button line the
  \<open>i\<close>-th element of \<open>buttons\<close>. While both sequences have fewer than \<open>2 ^ 31\<close> elements
  this holds (\<open>chatterCallback_values_in_range\<close>): every element has its line, whose value
  field is the rendering of the element itself. But at a message with \<open>2 ^ 31 + 1\<close> axis
  values the \<^verbatim>\<open>int\<close> counter cannot reach the last valid index: the increment at
  \<^verbatim>\<open>INT_MAX\<close> is undefined, \<open>2 ^ 31\<close> axis lines have been written, and the element at
  index \<open>2 ^ 31\<close> has no line at all.
\<close>

theorem chatterCallback_long_axes_element_without_line:
  "fst (chatterCallback
         \<lparr>cout = [], msg = \<lparr>header = (), axes = replicate 2147483649 0, buttons = []\<rparr>,
          rest = ()\<rparr>)
     = Inl SignedOverflow
   \<and> length (axis_lines (cout (snd (chatterCallback
         \<lparr>cout = [], msg = \<lparr>header = (), axes = replicate 2147483649 0, buttons = []\<rparr>,
          rest = ()\<rparr>))))
     = 2147483648
   \<and> 2147483648 < length (replicate 2147483649 (0 :: float32))"
proof -
  let ?s = "\<lparr>cout = [], msg = \<lparr>header = (), axes = replicate 2147483649 0, buttons = []\<rparr>,
            rest = ()\<rparr> :: (unit, unit) state"
  have w: "written ?s (snd (chatterCallback ?s)) = cout (snd (chatterCallback ?s))"
    by (simp add: written_def)
  have "length (axis_lines (written ?s (snd (chatterCallback ?s)))) = 2147483648"
    by (simp add: axis_lines_count)
  then have "length (axis_lines (cout (snd (chatterCallback ?s)))) = 2147483648"
    by (simp only: w)
  moreover have "fst (chatterCallback ?s) = Inl SignedOverflow"
    by (simp add: chatterCallback_status)
  ultimately show ?thesis
    by simp
qed

text \<open>
  Claim C4. On every message, the index field of the \<open>k\<close>-th axis line written
  (counting from 0) is the numeral of \<open>k\<close>, exactly as \<^verbatim>\<open>%d\<close> prints it, and read back
  strictly it is \<open>k\<close>: the printed indices are \<open>0, 1, 2, \<dots>\<close> in this order, starting at 0
  and going up by one per line with no gap. The same holds for the button lines. While
  both sequences have fewer than \<open>2 ^ 31\<close> elements, there is one axis line for each
  element of \<open>axes\<close> and one button line for each element of \<open>buttons\<close>.
\<close>

theorem chatterCallback_indices_count_up:
  "map index_field (axis_lines (written s (snd (chatterCallback s))))
     = map (\<lambda>k. put_int (int k)) [0 ..< length (axis_lines (written s (snd (chatterCallback s))))]
   \<and> map (decimal \<circ> index_field) (axis_lines (written s (snd (chatterCallback s))))
     = map Some [0 ..< length (axis_lines (written s (snd (chatterCallback s))))]
   \<and> map index_field (button_lines (written s (snd (chatterCallback s))))
     = map (\<lambda>k. put_int (int k)) [0 ..< length (button_lines (written s (snd (chatterCallback s))))]
   \<and> map (decimal \<circ> index_field) (button_lines (written s (snd (chatterCallback s))))
     = map Some [0 ..< length (button_lines (written s (snd (chatterCallback s))))]
   \<and> (length (axes (msg s)) < 2 ^ 31 \<and> length (buttons (msg s)) < 2 ^ 31
      \<longrightarrow> length (axis_lines (written s (snd (chatterCallback s)))) = length (axes (msg s))
        \<and> length (button_lines (written s (snd (chatterCallback s)))) = length (buttons (msg s)))"
proof -
  obtain n where a: "axis_lines (written s (snd (chatterCallback s)))
              = map (\<lambda>k. axis_line (int k) (axes (msg s) ! k)) [0 ..< n]"
    by (rule axis_lines_indexed)
  obtain m where b: "button_lines (written s (snd (chatterCallback s)))
              = map (\<lambda>k. button_line (int k) (buttons (msg s) ! k)) [0 ..< m]"
    by (rule button_lines_indexed)
  have 1: "map index_field (axis_lines (written s (snd (chatterCallback s))))
     = map (\<lambda>k. put_int (int k)) [0 ..< length (axis_lines (written s (snd (chatterCallback s))))]"
    unfolding a by (simp add: index_field_axis_line)
  have 2: "map (decimal \<circ> index_field) (axis_lines (written s (snd (chatterCallback s))))
     = map Some [0 ..< length (axis_lines (written s (snd (chatterCallback s))))]"
    unfolding a by (simp add: index_field_axis_line decimal_put_int)
  have 3: "map index_field (button_lines (written s (snd (chatterCallback s))))
     = map (\<lambda>k. put_int (int k)) [0 ..< length (button_lines (written s (snd (chatterCallback s))))]"
    unfolding b by (simp add: index_field_button_line)
  have 4: "map (decimal \<circ> index_field) (button_lines (written s (snd (chatterCallback s))))
     = map Some [0 ..< length (button_lines (written s (snd (chatterCallback s))))]"
    unfolding b by (simp add: index_field_button_line decimal_put_int)
  have 5: "length (axis_lines (written s (snd (chatterCallback s)))) = length (axes (msg s))
        \<and> length (button_lines (written s (snd (chatterCallback s)))) = length (buttons (msg s))"
    if "length (axes (msg s)) < 2 ^ 31 \<and> length (buttons (msg s)) < 2 ^ 31"
    using that by (simp add: axis_lines_in_range button_lines_in_range)
  from 1 2 3 4 5 show ?thesis
    by blast
qed

theorem chatterCallback_indices_count_up_witness:
  "length (axis_lines (written
       \<lparr>cout = [], msg = \<lparr>header = (), axes = [0x3F000000, 0xBF800000], buttons = [1, 0]\<rparr>,
        rest = ()\<rparr>
       (snd (chatterCallback
       \<lparr>cout = [], msg = \<lparr>header = (), axes = [0x3F000000, 0xBF800000], buttons = [1, 0]\<rparr>,
        rest = ()\<rparr>)))) = 2
   \<and> length (button_lines (written
       \<lparr>cout = [], msg = \<lparr>header = (), axes = [0x3F000000, 0xBF800000], buttons = [1, 0]\<rparr>,
        rest = ()\<rparr>
       (snd (chatterCallback
       \<lparr>cout = [], msg = \<lparr>header = (), axes = [0x3F000000, 0xBF800000], buttons = [1, 0]\<rparr>,
        rest = ()\<rparr>)))) = 2
   \<and> map index_field (axis_lines (written
       \<lparr>cout = [], msg = \<lparr>header = (), axes = [0x3F000000, 0xBF800000], buttons = [1, 0]\<rparr>,
        rest = ()\<rparr>
       (snd (chatterCallback
       \<lparr>cout = [], msg = \<lparr>header = (), axes = [0x3F000000, 0xBF800000], buttons = [1, 0]\<rparr>,
        rest = ()\<rparr>)))) = [''0'', ''1'']
   \<and> map index_field (button_lines (written
       \<lparr>cout = [], msg = \<lparr>header = (), axes = [0x3F000000, 0xBF800000], buttons = [1, 0]\<rparr>,
        rest = ()\<rparr>
       (snd (chatterCallback
       \<lparr>cout = [], msg = \<lparr>header = (), axes = [0x3F000000, 0xBF800000], buttons = [1, 0]\<rparr>,
        rest = ()\<rparr>)))) = [''0'', ''1'']"
proof -
  let ?s = "\<lparr>cout = [], msg = \<lparr>header = (), axes = [0x3F000000, 0xBF800000], buttons = [1, 0]\<rparr>,
            rest = ()\<rparr> :: (unit, unit) state"
  let ?a = "axis_lines (written ?s (snd (chatterCallback ?s)))"
  let ?b = "button_lines (written ?s (snd (chatterCallback ?s)))"
  note t = chatterCallback_indices_count_up [of ?s]
  have r: "length (axes (msg ?s)) < 2 ^ 31 \<and> length (buttons (msg ?s)) < 2 ^ 31"
    by simp
  from t r have la: "length ?a = 2" and lb: "length ?b = 2"
    by simp_all
  have u: "map (\<lambda>k. put_int (int k)) [0 ..< 2] = [''0'', ''1'']"
    by (simp add: upt_rec put_int_small)
  from t have "map index_field ?a = map (\<lambda>k. put_int (int k)) [0 ..< length ?a]"
    by blast
  then have ia: "map index_field ?a = [''0'', ''1'']"
    by (simp only: la u)
  from t have "map index_field ?b = map (\<lambda>k. put_int (int k)) [0 ..< length ?b]"
    by blast
  then have ib: "map index_field ?b = [''0'', ''1'']"
    by (simp only: lb u)
  from la lb ia ib show ?thesis
    by (intro conjI)
qed

text \<open>
  Claim C5. For a message whose \<open>axes\<close> and \<open>buttons\<close> are both empty,
  \<open>chatterCallback\<close> returns normally and leaves the state as it was: it writes no
  character, so no line.
\<close>

theorem chatterCallback_empty_message:
  "chatterCallback \<lparr>cout = c, msg = \<lparr>header = h, axes = [], buttons = []\<rparr>, rest = r\<rparr>
     = (Inr (), \<lparr>cout = c, msg = \<lparr>header = h, axes = [], buttons = []\<rparr>, rest = r\<rparr>)
   \<and> lines_of (written \<lparr>cout = c, msg = \<lparr>header = h, axes = [], buttons = []\<rparr>, rest = r\<rparr>
        (snd (chatterCallback \<lparr>cout = c, msg = \<lparr>header = h, axes = [], buttons = []\<rparr>, rest = r\<rparr>)))
     = []"
  by (simp add: chatterCallback_run axes_text_def buttons_text_def loop_end_def written_def)

text \<open>
  Claim C6. The callback should fail on no message. No element access is ever out of
  range (\<open>chatterCallback_never_out_of_range\<close>), and an empty sequence gives no output for
  its part. But the call ends in undefined behaviour as soon as a sequence has \<open>2 ^ 31\<close>
  elements (\<open>chatterCallback_status\<close>): here a message with no axis value and \<open>2 ^ 31\<close>
  button values, where the increment of the second loop's counter overflows.
\<close>

theorem chatterCallback_long_buttons_overflow:
  "fst (chatterCallback
         \<lparr>cout = [], msg = \<lparr>header = (), axes = [], buttons = replicate 2147483648 0\<rparr>,
          rest = ()\<rparr>)
     = Inl SignedOverflow"
  by (simp add: chatterCallback_status)

text \<open>
  Claim C7. A call changes nothing but the stream: the message object and the rest of
  the process state are as before, what had been written stays in front, and the state
  after the call is the state before it with the written characters appended to
  \<^verbatim>\<open>std::cout\<close>. The call returns no value (the result type is \<open>unit\<close>).
\<close>

theorem chatterCallback_frame:
  "msg (snd (chatterCallback s)) = msg s
   \<and> rest (snd (chatterCallback s)) = rest s
   \<and> take (length (cout s)) (cout (snd (chatterCallback s))) = cout s
   \<and> snd (chatterCallback s) = s\<lparr>cout := cout s @ written s (snd (chatterCallback s))\<rparr>"
  by (simp add: chatterCallback_run written_def put_string_def)

text \<open>
  Claim C10. Two calls on messages with equal \<open>axes\<close> and equal \<open>buttons\<close> end the same
  way and write the same text, whatever the headers, the earlier output and the rest of
  the two states are.
\<close>

theorem chatterCallback_depends_on_axes_and_buttons:
  fixes s :: "('h, 'r) state" and t :: "('g, 'q) state"
  assumes "axes (msg s) = axes (msg t)" and "buttons (msg s) = buttons (msg t)"
  shows "fst (chatterCallback s) = fst (chatterCallback t)
    \<and> written s (snd (chatterCallback s)) = written t (snd (chatterCallback t))"
  using assms by (simp add: chatterCallback_status written_chatterCallback)

theorem chatterCallback_depends_on_axes_and_buttons_witness:
  "fst (chatterCallback
          \<lparr>cout = ''x'', msg = \<lparr>header = (1 :: nat), axes = [0x3F000000], buttons = [1]\<rparr>,
           rest = True\<rparr>)
     = fst (chatterCallback
          \<lparr>cout = [], msg = \<lparr>header = ''h'', axes = [0x3F000000], buttons = [1]\<rparr>, rest = ()\<rparr>)
   \<and> written
         \<lparr>cout = ''x'', msg = \<lparr>header = (1 :: nat), axes = [0x3F000000], buttons = [1]\<rparr>,
          rest = True\<rparr>
         (snd (chatterCallback
          \<lparr>cout = ''x'', msg = \<lparr>header = (1 :: nat), axes = [0x3F000000], buttons = [1]\<rparr>,
           rest = True\<rparr>))
     = written
         \<lparr>cout = [], msg = \<lparr>header = ''h'', axes = [0x3F000000], buttons = [1]\<rparr>, rest = ()\<rparr>
         (snd (chatterCallback
          \<lparr>cout = [], msg = \<lparr>header = ''h'', axes = [0x3F000000], buttons = [1]\<rparr>, rest = ()\<rparr>))"
  using chatterCallback_depends_on_axes_and_buttons
    [of "\<lparr>cout = ''x'', msg = \<lparr>header = (1 :: nat), axes = [0x3F000000], buttons = [1]\<rparr>,
          rest = True\<rparr>"
        "\<lparr>cout = [], msg = \<lparr>header = ''h'', axes = [0x3F000000], buttons = [1]\<rparr>, rest = ()\<rparr>"]
  by simp

section \<open>The program's calls and its exit\<close>

text \<open>
  Claim C8. \<open>main\<close> asks for one subscription and no other: on the node \<open>listener\<close>,
  for the topic \<open>joy\<close>, with \<open>chatterCallback\<close> as the handler and the middleware's
  default quality-of-service profile. (It asks for none when the initialisation or the
  construction of the node has thrown before.)
\<close>

theorem main_registers_one_subscription:
  "filter is_subscription (snd (main rmw_qos_profile_default env argv))
     = (if init_throws env \<or> make_shared_throws env then []
        else [Create_subscription ''listener'' ''joy'' ChatterCallback rmw_qos_profile_default])"
  by (cases "spin_outcome env") (simp_all add: main_def Let_def)

text \<open>
  Claim C9. The only value \<open>main\<close> returns is 0, it returns it when no call of the
  middleware throws and \<^verbatim>\<open>rclcpp::spin\<close> comes back after the shutdown request, and
  it ends the process in no other way of its own: without an exception of the middleware
  the process is not terminated.
\<close>

theorem main_exit_code:
  "(fst (main rmw_qos_profile_default env argv) = Returned c \<longrightarrow> c = 0)
   \<and> (\<not> init_throws env \<and> \<not> make_shared_throws env \<and> \<not> create_subscription_throws env
        \<and> spin_outcome env = Spin_returns
      \<longrightarrow> fst (main rmw_qos_profile_default env argv) = Returned 0)
   \<and> (\<not> init_throws env \<and> \<not> make_shared_throws env \<and> \<not> create_subscription_throws env
        \<and> spin_outcome env \<noteq> Spin_throws
      \<longrightarrow> fst (main rmw_qos_profile_default env argv) \<noteq> Terminated)"
  by (cases "spin_outcome env") (auto simp: main_def Let_def)

theorem main_exit_code_witness:
  "fst (main ()
         \<lparr>init_throws = False, make_shared_throws = False, create_subscription_throws = False,
          spin_outcome = Spin_returns\<rparr>
         [''joystick_listener''])
     = Returned 0
   \<and> fst (main ()
         \<lparr>init_throws = False, make_shared_throws = False, create_subscription_throws = False,
          spin_outcome = Spin_returns\<rparr>
         [''joystick_listener''])
     \<noteq> Terminated"
  using main_exit_code
    [of "()" "\<lparr>init_throws = False, make_shared_throws = False,
                create_subscription_throws = False, spin_outcome = Spin_returns\<rparr>"
        "[''joystick_listener'']" 0]
  by simp

end
